theory Spec2Isabelle
  imports Main "HOL-Library.Sublist" "HOL-Library.AList" "HOL-Library.Multiset"
begin

section \<open>The peer manager of lisk\_argus (src/peers/PeerManager.ts)\<close>

text \<open>
  The class \<open>PeerManager\<close> keeps a JavaScript \<open>Map\<close> from nonce to \<open>Peer\<close>, the best
  height seen so far and its broadhash. Its methods are embedded as functions that take
  the manager's state and return the new one. \<open>Peer\<close>, \<open>PeerInfo\<close>, \<open>PeerState\<close> and
  \<open>OwnNodeOptions\<close> come from the library libargus, \<open>semver.satisfies\<close> from semver and
  \<open>_.shuffle\<close> from underscore: the data of a peer that the manager reads are fields of
  a record, and the behaviour of the library calls is a parameter. No method of the class
  catches an exception: what a library call throws, the method throws.
\<close>

subsection \<open>Data\<close>

text \<open>The candidate description \<open>PeerInfo\<close>, with the fields the manager reads or writes.\<close>

record PeerInfo =
  ip :: string
  wsPort :: nat
  httpPort :: nat
  version :: string
  nonce :: string

text \<open>The first argument of \<open>new Peer(...)\<close> as \<open>addPeer\<close> builds it.\<close>

record PeerOptions =
  opt_ip :: string
  opt_wsPort :: nat
  opt_httpPort :: nat
  opt_nethash :: string
  opt_nonce :: string

text \<open>
  Modelled from the spec: the type of \<open>peer.status\<close> is declared in libargus; the spec
  gives it a chain height (a non-negative integer) and a broadhash (a string), absent
  until the first status arrives.
\<close>

record PeerStatus =
  height :: nat
  broadhash :: string

datatype PeerState = Online | Offline

text \<open>
  What the manager reads of a \<open>Peer\<close>: \<open>peer.options\<close>, \<open>peer.peers\<close> (the list may be
  undefined and may hold undefined entries: \<open>updatePeers\<close> drops them), \<open>peer.status\<close>
  (optional), \<open>peer.state\<close> and \<open>peer.httpActive\<close>.
\<close>

record Peer =
  options :: PeerOptions
  peers :: "PeerInfo option list option"
  status :: "PeerStatus option"
  state :: PeerState
  httpActive :: bool

text \<open>
  The payload of a status event is of type \<open>any\<close>; the manager reads \<open>update.nonce\<close>
  only, which may be missing.
\<close>

record StatusUpdate =
  upd_nonce :: "string option"
  upd_height :: nat
  upd_broadhash :: string

text \<open>The part of \<open>config.json\<close> that the manager reads.\<close>

record Config =
  seedNode_host :: string
  seedNode_wsPort :: nat
  seedNode_httpPort :: nat
  seedNode_version :: string
  minVersion :: string
  nethash :: string

text \<open>
  What a method of the manager throws: the \<open>Error\<close> of \<open>getBestHTTPPeer\<close>, or the
  \<open>TypeError\<close> (with its message) that \<open>semver.satisfies\<close> raises on a version it cannot
  parse.
\<close>

datatype error = NoBestPeerFound | TypeError string

text \<open>
  What the manager is built over: the nonce of \<open>ownNode\<close>, the configuration, and the
  library calls whose code is not part of the repository: \<open>semver.satisfies\<close> (it
  returns a boolean or throws), \<open>Peer.handleStatusUpdate\<close> and
  \<open>Peer.setWebsocketServerConnected\<close> (both mutate the peer they are called on).
\<close>

record Env =
  ownNode_nonce :: string
  config :: Config
  satisfies :: "string \<Rightarrow> string \<Rightarrow> error + bool"
  peer_handleStatusUpdate :: "StatusUpdate \<Rightarrow> Peer \<Rightarrow> Peer"
  peer_setWebsocketServerConnected :: "bool \<Rightarrow> Peer \<Rightarrow> Peer"

text \<open>
  The manager's fields: \<open>_peers\<close> (a \<open>Map\<close>, which iterates in insertion order: an
  association list), \<open>bestHeight\<close> and \<open>bestBroadhash\<close>.
\<close>

record ManagerState =
  peersMap :: "(string \<times> Peer) list"
  bestHeight :: nat
  bestBroadhash :: string

text \<open>
  How a call of a method that changes the manager ends: it returns, or it throws; either
  way it leaves a state behind, since nothing is rolled back when an exception passes.
\<close>

datatype outcome = Returned ManagerState | Threw error ManagerState

fun stateOf :: "outcome \<Rightarrow> ManagerState" where
  "stateOf (Returned st) = st"
| "stateOf (Threw e st) = st"

subsection \<open>The operations of a JavaScript Map, on an association list\<close>

definition map_has :: "(string \<times> Peer) list \<Rightarrow> string \<Rightarrow> bool" where
  "map_has m k = (case map_of m k of None \<Rightarrow> False | Some v \<Rightarrow> True)"

definition map_get :: "(string \<times> Peer) list \<Rightarrow> string \<Rightarrow> Peer option" where
  "map_get m k = map_of m k"

text \<open>\<open>Map.set\<close> replaces the value of a key in place and appends a new key at the end.\<close>

definition map_set :: "string \<Rightarrow> Peer \<Rightarrow> (string \<times> Peer) list \<Rightarrow> (string \<times> Peer) list" where
  "map_set k v m = AList.update k v m"

definition map_values :: "(string \<times> Peer) list \<Rightarrow> Peer list" where
  "map_values m = map snd m"

subsection \<open>String.indexOf\<close>

fun indexOf_from :: "string \<Rightarrow> string \<Rightarrow> nat \<Rightarrow> int" where
  "indexOf_from [] pat i = (if pat = [] then int i else - 1)"
| "indexOf_from (c # cs) pat i =
     (if prefix pat (c # cs) then int i else indexOf_from cs pat (Suc i))"

definition indexOf :: "string \<Rightarrow> string \<Rightarrow> int" where
  "indexOf s pat = indexOf_from s pat 0"

subsection \<open>addPeer and the constructor\<close>

text \<open>
  Modelled from the spec: the constructor of \<open>Peer\<close> is code of libargus. The record it
  builds keeps the options it is given; it has no status yet, no further peers, is
  offline and not HTTP-active, until the transport says otherwise.
\<close>

definition newPeer :: "PeerOptions \<Rightarrow> Peer" where
  "newPeer opts =
     \<lparr>options = opts, peers = Some [], status = None, state = Offline, httpActive = False\<rparr>"

definition peerOptions :: "Env \<Rightarrow> PeerInfo \<Rightarrow> PeerOptions" where
  "peerOptions env peer =
     \<lparr>opt_ip = ip peer, opt_wsPort = wsPort peer, opt_httpPort = httpPort peer,
      opt_nethash = nethash (config env), opt_nonce = nonce peer\<rparr>"

text \<open>
  The call of \<open>semver.satisfies\<close> stands in no \<open>try\<close>: when it throws, \<open>addPeer\<close> throws,
  before it has changed anything.
\<close>

definition addPeer :: "Env \<Rightarrow> PeerInfo \<Rightarrow> ManagerState \<Rightarrow> outcome" where
  "addPeer env peer st =
     (if nonce peer = ownNode_nonce env \<or> indexOf (nonce peer) ''monitoring'' \<noteq> - 1
      then Returned st
      else if map_has (peersMap st) (nonce peer) then Returned st
      else (case satisfies env (version peer) (minVersion (config env)) of
              Inl e \<Rightarrow> Threw e st
            | Inr ok \<Rightarrow>
                (if \<not> ok then Returned st
                 else Returned
                   (st\<lparr>peersMap :=
                        map_set (nonce peer) (newPeer (peerOptions env peer)) (peersMap st)\<rparr>))))"

definition seedInfo :: "Env \<Rightarrow> PeerInfo" where
  "seedInfo env =
     \<lparr>ip = seedNode_host (config env), wsPort = seedNode_wsPort (config env),
      httpPort = seedNode_httpPort (config env), version = seedNode_version (config env),
      nonce = []\<rparr>"

definition initialState :: ManagerState where
  "initialState = \<lparr>peersMap = [], bestHeight = 0, bestBroadhash = []\<rparr>"

text \<open>
  The constructor: the field initialisers, then \<open>addPeer\<close> of the seed. When that call
  throws, the constructor throws and there is no manager.
\<close>

definition newPeerManager :: "Env \<Rightarrow> outcome" where
  "newPeerManager env = addPeer env (seedInfo env) initialState"

subsection \<open>updatePeers\<close>

text \<open>
  \<open>_.flatten(_.map(peers, peer => peer.peers))\<close>: a defined list contributes its entries,
  an undefined one contributes \<open>undefined\<close>; \<open>_.without(..., undefined)\<close> drops the
  undefined entries.
\<close>

definition flatten :: "PeerInfo option list option list \<Rightarrow> PeerInfo option list" where
  "flatten xss = concat (map (\<lambda>xs. case xs of None \<Rightarrow> [None] | Some l \<Rightarrow> l) xss)"

definition without_undefined :: "PeerInfo option list \<Rightarrow> PeerInfo list" where
  "without_undefined xs = List.map_filter (\<lambda>x. x) xs"

definition peerList :: "ManagerState \<Rightarrow> PeerInfo list" where
  "peerList st = without_undefined (flatten (map peers (map_values (peersMap st))))"

text \<open>The loop over the peers that raises \<open>bestHeight\<close> and \<open>bestBroadhash\<close>.\<close>

fun updateBest :: "Peer list \<Rightarrow> nat \<times> string \<Rightarrow> nat \<times> string" where
  "updateBest [] best = best"
| "updateBest (peer # rest) (bh, bb) =
     (case status peer of
        None \<Rightarrow> updateBest rest (bh, bb)
      | Some s \<Rightarrow>
          (if height s > bh then updateBest rest (height s, broadhash s)
           else updateBest rest (bh, bb)))"

text \<open>The loop that stages the new peers: \<open>newPeers\<close> is the accumulator.\<close>

fun discover :: "string \<Rightarrow> Peer list \<Rightarrow> PeerInfo list \<Rightarrow> PeerInfo list \<Rightarrow> PeerInfo list" where
  "discover own known [] newPeers = newPeers"
| "discover own known (peer # rest) newPeers =
     (if List.find (\<lambda>item. opt_nonce (options item) = nonce peer) known \<noteq> None
      then discover own known rest newPeers
      else if List.find (\<lambda>item. nonce item = nonce peer \<or> nonce peer = own) newPeers \<noteq> None
      then discover own known rest newPeers
      else discover own known rest (newPeers @ [peer]))"

definition stagedPeers :: "Env \<Rightarrow> ManagerState \<Rightarrow> PeerInfo list" where
  "stagedPeers env st =
     discover (ownNode_nonce env) (map_values (peersMap st)) (peerList st) []"

text \<open>
  The loop that connects to the new peers: an \<open>addPeer\<close> that throws ends the loop, and
  the peers staged after it are not added.
\<close>

fun connectNew :: "Env \<Rightarrow> PeerInfo list \<Rightarrow> ManagerState \<Rightarrow> outcome" where
  "connectNew env [] st = Returned st"
| "connectNew env (peer # rest) st =
     (case addPeer env peer st of
        Threw e st' \<Rightarrow> Threw e st'
      | Returned st' \<Rightarrow> connectNew env rest st')"

text \<open>The three log lines at the end of \<open>updatePeers\<close> change no state.\<close>

definition updatePeers :: "Env \<Rightarrow> ManagerState \<Rightarrow> outcome" where
  "updatePeers env st =
     (let best = updateBest (map_values (peersMap st)) (bestHeight st, bestBroadhash st);
          st1 = st\<lparr>bestHeight := fst best, bestBroadhash := snd best\<rparr>
      in connectNew env (stagedPeers env st) st1)"

subsection \<open>getBestHTTPPeer and getBestHeight\<close>

definition statusHeight :: "Peer \<Rightarrow> nat" where
  "statusHeight peer = (case status peer of None \<Rightarrow> 0 | Some s \<Rightarrow> height s)"

text \<open>The scan of the shuffled peers: the accumulator is \<open>(bestPeer, bestHeight)\<close>.\<close>

fun scanBest :: "Peer list \<Rightarrow> Peer option \<times> nat \<Rightarrow> Peer option \<times> nat" where
  "scanBest [] best = best"
| "scanBest (peer # rest) (bestPeer, bh) =
     (if \<not> httpActive peer then scanBest rest (bestPeer, bh)
      else if statusHeight peer \<ge> bh then scanBest rest (Some peer, statusHeight peer)
      else scanBest rest (bestPeer, bh))"

text \<open>
  \<open>_.shuffle\<close> returns the peers in a random order: the order it produces is the
  parameter \<open>shuffle\<close>, a permutation of its argument.
\<close>

definition getBestHTTPPeer :: "(Peer list \<Rightarrow> Peer list) \<Rightarrow> ManagerState \<Rightarrow> error + Peer" where
  "getBestHTTPPeer shuffle st =
     (case fst (scanBest (shuffle (map_values (peersMap st))) (None, 0)) of
        None \<Rightarrow> Inl NoBestPeerFound
      | Some bestPeer \<Rightarrow> Inr bestPeer)"

definition getBestHeight :: "ManagerState \<Rightarrow> nat" where
  "getBestHeight st = bestHeight st"

subsection \<open>handleStatusUpdate and wsServerConnectionChanged\<close>

text \<open>\<open>!update.nonce\<close> holds of a missing nonce and of the empty string.\<close>

definition handleStatusUpdate :: "Env \<Rightarrow> StatusUpdate \<Rightarrow> ManagerState \<Rightarrow> ManagerState" where
  "handleStatusUpdate env update st =
     (case upd_nonce update of
        None \<Rightarrow> st
      | Some n \<Rightarrow>
          (if n = [] then st
           else (case map_get (peersMap st) n of
                   None \<Rightarrow> st
                 | Some peer \<Rightarrow>
                     st\<lparr>peersMap :=
                          map_set n (peer_handleStatusUpdate env update peer) (peersMap st)\<rparr>)))"

definition wsServerConnectionChanged :: "Env \<Rightarrow> string \<Rightarrow> bool \<Rightarrow> ManagerState \<Rightarrow> ManagerState" where
  "wsServerConnectionChanged env n connected st =
     (if \<not> map_has (peersMap st) n then st
      else (case map_get (peersMap st) n of
              None \<Rightarrow> st
            | Some peer \<Rightarrow>
                st\<lparr>peersMap :=
                     map_set n (peer_setWebsocketServerConnected env connected peer) (peersMap st)\<rparr>))"

subsection \<open>The transport, and sequences of operations\<close>

text \<open>
  Between two calls of the manager the transport changes what a registered peer shows
  (its further peers, status, state, HTTP flag), never which nonce it is stored under or
  the options it was built with. A sequence of operations goes on from the state a call
  has left, also when the call threw: the sequences in which the process ends at the
  first exception are the prefixes of these.
\<close>

definition transport :: "(string \<Rightarrow> Peer \<Rightarrow> Peer) \<Rightarrow> ManagerState \<Rightarrow> ManagerState" where
  "transport f st =
     st\<lparr>peersMap := map (\<lambda>(k, p). (k, (f k p)\<lparr>options := options p\<rparr>)) (peersMap st)\<rparr>"

datatype Op =
    AddPeer PeerInfo
  | UpdatePeers
  | HandleStatusUpdate StatusUpdate
  | WsServerConnectionChanged string bool
  | Transport "string \<Rightarrow> Peer \<Rightarrow> Peer"

fun step :: "Env \<Rightarrow> Op \<Rightarrow> ManagerState \<Rightarrow> ManagerState" where
  "step env (AddPeer peer) st = stateOf (addPeer env peer st)"
| "step env UpdatePeers st = stateOf (updatePeers env st)"
| "step env (HandleStatusUpdate update) st = handleStatusUpdate env update st"
| "step env (WsServerConnectionChanged n connected) st = wsServerConnectionChanged env n connected st"
| "step env (Transport f) st = transport f st"

definition run :: "Env \<Rightarrow> Op list \<Rightarrow> ManagerState \<Rightarrow> ManagerState" where
  "run env ops st = fold (step env) ops st"

subsection \<open>A concrete manager, for evaluation\<close>

definition demoConfig :: Config where
  "demoConfig =
     \<lparr>seedNode_host = ''seed.example'', seedNode_wsPort = 7001, seedNode_httpPort = 7000,
      seedNode_version = ''1.0.0'', minVersion = ''1.0.0'', nethash = ''nh''\<rparr>"

text \<open>
  A stand-in for \<open>semver.satisfies\<close> of semver 5, on ranges that are one plain version:
  an empty version satisfies nothing; a version that is not of the form
  \<open>major.minor.patch\<close>, three numbers without leading zeros, makes it throw the
  \<open>TypeError\<close> \<open>Invalid Version\<close>; otherwise the version satisfies the range when it is the
  range's own version.
\<close>

fun splitDots :: "string \<Rightarrow> string \<Rightarrow> string list" where
  "splitDots [] part = [part]"
| "splitDots (c # cs) part =
     (if c = CHR ''.'' then part # splitDots cs [] else splitDots cs (part @ [c]))"

definition numericIdentifier :: "string \<Rightarrow> bool" where
  "numericIdentifier s =
     (case s of
        [] \<Rightarrow> False
      | c # cs \<Rightarrow> list_all (\<lambda>d. d \<in> set ''0123456789'') s \<and> (cs = [] \<or> c \<noteq> CHR ''0''))"

definition plainVersion :: "string \<Rightarrow> bool" where
  "plainVersion v =
     (case splitDots v [] of
        [a, b, c] \<Rightarrow> numericIdentifier a \<and> numericIdentifier b \<and> numericIdentifier c
      | _ \<Rightarrow> False)"

definition demoSatisfies :: "string \<Rightarrow> string \<Rightarrow> error + bool" where
  "demoSatisfies v r =
     (if v = [] then Inr False
      else if \<not> plainVersion v then Inl (TypeError (''Invalid Version: '' @ v))
      else Inr (v = r))"

text \<open>
  Stand-ins for the calls of libargus: a status update overwrites the peer's status; the
  websocket flag is not among the fields the manager reads.
\<close>

definition demoEnv :: Env where
  "demoEnv =
     \<lparr>ownNode_nonce = ''own'', config = demoConfig,
      satisfies = demoSatisfies,
      peer_handleStatusUpdate =
        (\<lambda>u p. p\<lparr>status := Some \<lparr>height = upd_height u, broadhash = upd_broadhash u\<rparr>\<rparr>),
      peer_setWebsocketServerConnected = (\<lambda>c p. p)\<rparr>"

definition demoInfo :: "string \<Rightarrow> string \<Rightarrow> PeerInfo" where
  "demoInfo n v = \<lparr>ip = ''10.0.0.1'', wsPort = 7001, httpPort = 7000, version = v, nonce = n\<rparr>"

definition demoPeer :: "string \<Rightarrow> nat option \<Rightarrow> bool \<Rightarrow> Peer" where
  "demoPeer n h http =
     (newPeer (peerOptions demoEnv (demoInfo n ''1.0.0'')))
       \<lparr>status := map_option (\<lambda>x. \<lparr>height = x, broadhash = ''bh''\<rparr>) h, httpActive := http\<rparr>"

definition demoState :: "(string \<times> Peer) list \<Rightarrow> ManagerState" where
  "demoState m = \<lparr>peersMap = m, bestHeight = 0, bestBroadhash = []\<rparr>"

definition tieState :: ManagerState where
  "tieState = demoState [(''p1'', demoPeer ''p1'' (Some 5) True), (''p2'', demoPeer ''p2'' (Some 5) True)]"

definition seedState :: ManagerState where
  "seedState = demoState [(''seed'', demoPeer ''seed'' None False)]"

definition seedUpdate :: StatusUpdate where
  "seedUpdate = \<lparr>upd_nonce = Some ''seed'', upd_height = 100, upd_broadhash = ''h1''\<rparr>"

definition emptyNonceUpdate :: StatusUpdate where
  "emptyNonceUpdate = \<lparr>upd_nonce = Some [], upd_height = 100, upd_broadhash = ''h1''\<rparr>"






subsection \<open>Notions the properties are stated with\<close>

text \<open>
  A nonce may be a key of the registry when it is not the own node's and does not contain
  the marker \<open>monitoring\<close> of a monitoring probe.
\<close>

definition nonceAllowed :: "Env \<Rightarrow> string \<Rightarrow> bool" where
  "nonceAllowed env k = (k \<noteq> ownNode_nonce env \<and> \<not> sublist ''monitoring'' k)"

text \<open>The entries the registry holds under a nonce, in the order of the map.\<close>

definition entriesOf :: "string \<Rightarrow> ManagerState \<Rightarrow> (string \<times> Peer) list" where
  "entriesOf n st = filter (\<lambda>e. fst e = n) (peersMap st)"





section \<open>Auxiliary facts\<close>

lemma map_has_iff: "map_has m k \<longleftrightarrow> k \<in> fst ` set m"
  by (simp add: map_has_def map_of_eq_None_iff split: option.splits) (metis map_of_eq_None_iff option.distinct(1))

lemma keys_map_set: "fst ` set (map_set k v m) = insert k (fst ` set m)"
  by (simp add: map_set_def dom_update)

lemma map_get_Some_key: "map_get m k = Some v \<Longrightarrow> k \<in> fst ` set m"
  unfolding map_get_def by (metis map_of_eq_None_iff option.distinct(1))

lemma indexOf_from_sublist: "indexOf_from s pat i = - 1 \<longleftrightarrow> \<not> sublist pat s"
  by (induction s arbitrary: i) (auto simp: sublist_Cons_right)

lemma indexOf_sublist: "indexOf s pat \<noteq> - 1 \<longleftrightarrow> sublist pat s"
  by (simp add: indexOf_def indexOf_from_sublist)

lemma stateOf_addPeer:
  "stateOf (addPeer env c st) =
     (if nonce c \<noteq> ownNode_nonce env \<and> \<not> sublist ''monitoring'' (nonce c)
          \<and> \<not> map_has (peersMap st) (nonce c)
          \<and> satisfies env (version c) (minVersion (config env)) = Inr True
      then st\<lparr>peersMap := map_set (nonce c) (newPeer (peerOptions env c)) (peersMap st)\<rparr>
      else st)"
  by (auto simp: addPeer_def indexOf_sublist split: sum.splits)

lemma addPeer_outcome:
  "addPeer env c st = Returned (stateOf (addPeer env c st))
   \<or> (\<exists>e. addPeer env c st = Threw e st)"
  by (auto simp: addPeer_def split: sum.splits)

lemma addPeer_bestHeight: "bestHeight (stateOf (addPeer env peer st)) = bestHeight st"
  by (simp add: stateOf_addPeer)


lemma addPeer_new_key:
  "k \<in> fst ` set (peersMap (stateOf (addPeer env c st))) \<Longrightarrow> k \<notin> fst ` set (peersMap st) \<Longrightarrow>
   k = nonce c \<and> k \<noteq> ownNode_nonce env \<and> \<not> sublist ''monitoring'' k"
  by (auto simp: stateOf_addPeer keys_map_set split: if_splits)

lemma connectNew_Cons_state:
  "stateOf (connectNew env (c # cs) st) = stateOf (addPeer env c st)
   \<or> stateOf (connectNew env (c # cs) st) = stateOf (connectNew env cs (stateOf (addPeer env c st)))"
  by (cases "addPeer env c st") simp_all

lemma updateBest_ge: "h \<le> fst (updateBest ps (h, b))"
proof (induction ps arbitrary: h b)
  case Nil
  then show ?case by simp
next
  case (Cons p ps)
  show ?case
  proof (cases "status p")
    case None
    then show ?thesis using Cons.IH by simp
  next
    case (Some s)
    then show ?thesis using Cons.IH [of "height s" "broadhash s"] Cons.IH [of h b]
      by (auto intro: order_trans less_imp_le)
  qed
qed

lemma updateBest_covers:
  "p \<in> set ps \<Longrightarrow> status p = Some s \<Longrightarrow> height s \<le> fst (updateBest ps (h, b))"
proof (induction ps arbitrary: h b)
  case Nil
  then show ?case by simp
next
  case (Cons q ps)
  show ?case
  proof (cases "p = q")
    case True
    then show ?thesis
      using Cons.prems updateBest_ge [of "height s" ps "broadhash s"] updateBest_ge [of h ps b]
      by (auto split: option.splits)
  next
    case False
    then have "p \<in> set ps" using Cons.prems by simp
    then show ?thesis using Cons.IH Cons.prems(2) by (auto split: option.splits)
  qed
qed

lemma connectNew_invariant:
  assumes "P st" and "\<And>c s. c \<in> set cs \<Longrightarrow> P s \<Longrightarrow> P (stateOf (addPeer env c s))"
  shows "P (stateOf (connectNew env cs st))"
  using assms
proof (induction cs arbitrary: st)
  case Nil
  then show ?case by simp
next
  case (Cons c cs)
  have a: "P (stateOf (addPeer env c st))" using Cons.prems by simp
  have b: "P (stateOf (connectNew env cs (stateOf (addPeer env c st))))"
    using a Cons.prems(2) by (intro Cons.IH) simp_all
  from connectNew_Cons_state [of env c cs st] show ?case
  proof
    assume e: "stateOf (connectNew env (c # cs) st) = stateOf (addPeer env c st)"
    show ?thesis unfolding e by (rule a)
  next
    assume e: "stateOf (connectNew env (c # cs) st)
                 = stateOf (connectNew env cs (stateOf (addPeer env c st)))"
    show ?thesis unfolding e by (rule b)
  qed
qed

lemma connectNew_bestHeight: "bestHeight (stateOf (connectNew env cs st)) = bestHeight st"
  by (rule connectNew_invariant [where P = "\<lambda>s. bestHeight s = bestHeight st"])
     (simp_all add: addPeer_bestHeight)


lemma updatePeers_unfold:
  "updatePeers env st =
     connectNew env (stagedPeers env st)
       (st\<lparr>bestHeight := fst (updateBest (map_values (peersMap st)) (bestHeight st, bestBroadhash st)),
           bestBroadhash := snd (updateBest (map_values (peersMap st)) (bestHeight st, bestBroadhash st))\<rparr>)"
  by (simp add: updatePeers_def Let_def)

lemma updatePeers_bestHeight:
  "bestHeight (stateOf (updatePeers env st))
     = fst (updateBest (map_values (peersMap st)) (bestHeight st, bestBroadhash st))"
  by (simp add: updatePeers_unfold connectNew_bestHeight)


lemma handleStatusUpdate_bestHeight: "bestHeight (handleStatusUpdate env u st) = bestHeight st"
  by (simp add: handleStatusUpdate_def split: option.splits)

lemma wsServerConnectionChanged_bestHeight: "bestHeight (wsServerConnectionChanged env n c st) = bestHeight st"
  by (simp add: wsServerConnectionChanged_def split: option.splits)

lemma transport_bestHeight: "bestHeight (transport f st) = bestHeight st"
  by (simp add: transport_def)

lemma step_bestHeight_mono: "bestHeight st \<le> bestHeight (step env op st)"
  by (cases op)
     (simp_all add: addPeer_bestHeight updatePeers_bestHeight updateBest_ge
        handleStatusUpdate_bestHeight wsServerConnectionChanged_bestHeight transport_bestHeight)

lemma run_bestHeight_mono: "bestHeight st \<le> bestHeight (run env ops st)"
  unfolding run_def
proof (induction ops arbitrary: st)
  case Nil
  then show ?case by simp
next
  case (Cons op ops)
  have "bestHeight st \<le> bestHeight (step env op st)" by (rule step_bestHeight_mono)
  also have "\<dots> \<le> bestHeight (fold (step env) ops (step env op st))" by (rule Cons.IH)
  finally show ?case by simp
qed

lemma run_append: "run env (ops1 @ ops2) st = run env ops2 (run env ops1 st)"
  by (simp add: run_def)

lemma keys_handleStatusUpdate:
  "fst ` set (peersMap (handleStatusUpdate env u st)) = fst ` set (peersMap st)"
  by (auto simp: handleStatusUpdate_def keys_map_set dest: map_get_Some_key split: option.splits)

lemma keys_wsServerConnectionChanged:
  "fst ` set (peersMap (wsServerConnectionChanged env n c st)) = fst ` set (peersMap st)"
  by (auto simp: wsServerConnectionChanged_def keys_map_set dest: map_get_Some_key split: option.splits)

lemma keys_transport: "fst ` set (peersMap (transport f st)) = fst ` set (peersMap st)"
  by (force simp: transport_def)

lemma addPeer_allowed:
  assumes "\<forall>k \<in> fst ` set (peersMap st). nonceAllowed env k"
  shows "\<forall>k \<in> fst ` set (peersMap (stateOf (addPeer env c st))). nonceAllowed env k"
proof
  fix k assume k: "k \<in> fst ` set (peersMap (stateOf (addPeer env c st)))"
  show "nonceAllowed env k"
  proof (cases "k \<in> fst ` set (peersMap st)")
    case True
    then show ?thesis using assms by blast
  next
    case False
    from addPeer_new_key [OF k False] show ?thesis unfolding nonceAllowed_def by blast
  qed
qed

lemma connectNew_allowed:
  "\<forall>k \<in> fst ` set (peersMap st). nonceAllowed env k \<Longrightarrow>
   \<forall>k \<in> fst ` set (peersMap (stateOf (connectNew env cs st))). nonceAllowed env k"
proof -
  assume a: "\<forall>k \<in> fst ` set (peersMap st). nonceAllowed env k"
  show ?thesis
  proof (rule connectNew_invariant
      [where P = "\<lambda>s. \<forall>k \<in> fst ` set (peersMap s). nonceAllowed env k"])
    show "\<forall>k \<in> fst ` set (peersMap st). nonceAllowed env k" by (rule a)
  next
    fix c and s :: ManagerState
    assume "\<forall>k \<in> fst ` set (peersMap s). nonceAllowed env k"
    then show "\<forall>k \<in> fst ` set (peersMap (stateOf (addPeer env c s))). nonceAllowed env k"
      by (rule addPeer_allowed)
  qed
qed

lemma updatePeers_allowed:
  assumes "\<forall>k \<in> fst ` set (peersMap st). nonceAllowed env k"
  shows "\<forall>k \<in> fst ` set (peersMap (stateOf (updatePeers env st))). nonceAllowed env k"
  unfolding updatePeers_unfold
  by (rule connectNew_allowed) (use assms in simp)

lemma step_allowed:
  assumes "\<forall>k \<in> fst ` set (peersMap st). nonceAllowed env k"
  shows "\<forall>k \<in> fst ` set (peersMap (step env op st)). nonceAllowed env k"
proof (cases op)
  case (AddPeer c)
  then show ?thesis using addPeer_allowed [OF assms] by simp
next
  case UpdatePeers
  then show ?thesis using updatePeers_allowed [OF assms] by simp
next
  case (HandleStatusUpdate u)
  then show ?thesis using assms by (simp only: step.simps keys_handleStatusUpdate)
next
  case (WsServerConnectionChanged n c)
  then show ?thesis using assms by (simp only: step.simps keys_wsServerConnectionChanged)
next
  case (Transport f)
  then show ?thesis using assms by (simp only: step.simps keys_transport)
qed

lemma run_allowed:
  "\<forall>k \<in> fst ` set (peersMap st). nonceAllowed env k \<Longrightarrow>
   \<forall>k \<in> fst ` set (peersMap (run env ops st)). nonceAllowed env k"
  unfolding run_def
proof (induction ops arbitrary: st)
  case Nil
  then show ?case by simp
next
  case (Cons op ops)
  from Cons.IH [OF step_allowed [OF Cons.prems]] show ?case by simp
qed

lemma newPeerManager_allowed:
  "\<forall>k \<in> fst ` set (peersMap (stateOf (newPeerManager env))). nonceAllowed env k"
  unfolding newPeerManager_def
  by (rule addPeer_allowed) (simp add: initialState_def)

lemma scanBest_Some: "fst (scanBest ps (Some q, h)) \<noteq> None"
  by (induction ps arbitrary: q h) auto

lemma scanBest_None_iff:
  "fst (scanBest ps (None, 0)) = None \<longleftrightarrow> (\<forall>p \<in> set ps. \<not> httpActive p)"
  by (induction ps) (auto simp: scanBest_Some)

lemma scanBest_shape:
  "scanBest ps (acc, h) = (r, h') \<Longrightarrow>
     (r = acc \<and> h' = h \<and> (\<forall>q \<in> set ps. httpActive q \<longrightarrow> statusHeight q < h)) \<or>
     (\<exists>pre p post. ps = pre @ p # post \<and> r = Some p \<and> h' = statusHeight p \<and> httpActive p \<and>
        h \<le> statusHeight p \<and>
        (\<forall>q \<in> set pre. httpActive q \<longrightarrow> statusHeight q \<le> statusHeight p) \<and>
        (\<forall>q \<in> set post. httpActive q \<longrightarrow> statusHeight q < statusHeight p))"
proof (induction ps arbitrary: acc h)
  case Nil
  then show ?case by simp
next
  case (Cons x xs)
  show ?case
  proof (cases "httpActive x \<and> h \<le> statusHeight x")
    case False
    then have run: "scanBest xs (acc, h) = (r, h')" using Cons.prems by (auto split: if_splits)
    from Cons.IH [OF run] show ?thesis
    proof
      assume "r = acc \<and> h' = h \<and> (\<forall>q \<in> set xs. httpActive q \<longrightarrow> statusHeight q < h)"
      then show ?thesis using False by auto
    next
      assume "\<exists>pre p post. xs = pre @ p # post \<and> r = Some p \<and> h' = statusHeight p \<and> httpActive p \<and>
        h \<le> statusHeight p \<and>
        (\<forall>q \<in> set pre. httpActive q \<longrightarrow> statusHeight q \<le> statusHeight p) \<and>
        (\<forall>q \<in> set post. httpActive q \<longrightarrow> statusHeight q < statusHeight p)"
      then obtain pre p post where d: "xs = pre @ p # post" "r = Some p" "h' = statusHeight p"
        "httpActive p" "h \<le> statusHeight p"
        "\<forall>q \<in> set pre. httpActive q \<longrightarrow> statusHeight q \<le> statusHeight p"
        "\<forall>q \<in> set post. httpActive q \<longrightarrow> statusHeight q < statusHeight p"
        by blast
      have e: "x # xs = (x # pre) @ p # post" using d(1) by simp
      have f: "\<forall>q \<in> set (x # pre). httpActive q \<longrightarrow> statusHeight q \<le> statusHeight p"
        using d(5,6) False by auto
      show ?thesis
        apply (rule disjI2)
        apply (rule exI [of _ "x # pre"])
        apply (rule exI [of _ p])
        apply (rule exI [of _ post])
        using d(2,3,4,5,7) e f apply (intro conjI)
        apply assumption+
        done
    qed
  next
    case True
    then have run: "scanBest xs (Some x, statusHeight x) = (r, h')" using Cons.prems by auto
    from Cons.IH [OF run] show ?thesis
    proof
      assume a: "r = Some x \<and> h' = statusHeight x \<and> (\<forall>q \<in> set xs. httpActive q \<longrightarrow> statusHeight q < statusHeight x)"
      have e: "x # xs = [] @ x # xs" by simp
      have f: "\<forall>q \<in> set []. httpActive q \<longrightarrow> statusHeight q \<le> statusHeight x" by simp
      have g: "r = Some x" "h' = statusHeight x" "httpActive x" "h \<le> statusHeight x"
        "\<forall>q \<in> set xs. httpActive q \<longrightarrow> statusHeight q < statusHeight x"
        using a True by simp_all
      show ?thesis
        apply (rule disjI2)
        apply (rule exI [of _ "[]"])
        apply (rule exI [of _ x])
        apply (rule exI [of _ xs])
        using e f g apply (intro conjI)
        apply assumption+
        done
    next
      assume "\<exists>pre p post. xs = pre @ p # post \<and> r = Some p \<and> h' = statusHeight p \<and> httpActive p \<and>
        statusHeight x \<le> statusHeight p \<and>
        (\<forall>q \<in> set pre. httpActive q \<longrightarrow> statusHeight q \<le> statusHeight p) \<and>
        (\<forall>q \<in> set post. httpActive q \<longrightarrow> statusHeight q < statusHeight p)"
      then obtain pre p post where d: "xs = pre @ p # post" "r = Some p" "h' = statusHeight p"
        "httpActive p" "statusHeight x \<le> statusHeight p"
        "\<forall>q \<in> set pre. httpActive q \<longrightarrow> statusHeight q \<le> statusHeight p"
        "\<forall>q \<in> set post. httpActive q \<longrightarrow> statusHeight q < statusHeight p"
        by blast
      have e: "x # xs = (x # pre) @ p # post" using d(1) by simp
      have f: "\<forall>q \<in> set (x # pre). httpActive q \<longrightarrow> statusHeight q \<le> statusHeight p"
        using d(5,6) by auto
      have g: "h \<le> statusHeight p" using True d(5) by linarith
      show ?thesis
        apply (rule disjI2)
        apply (rule exI [of _ "x # pre"])
        apply (rule exI [of _ p])
        apply (rule exI [of _ post])
        using d(2,3,4,7) e f g apply (intro conjI)
        apply assumption+
        done
    qed
  qed
qed

lemma scanBest_last_max:
  assumes "fst (scanBest ps (None, 0)) = Some p"
  shows "\<exists>pre post. ps = pre @ p # post \<and> httpActive p \<and>
        (\<forall>q \<in> set pre. httpActive q \<longrightarrow> statusHeight q \<le> statusHeight p) \<and>
        (\<forall>q \<in> set post. httpActive q \<longrightarrow> statusHeight q < statusHeight p)"
proof -
  obtain r h' where run: "scanBest ps (None, 0) = (r, h')" by (cases "scanBest ps (None, 0)")
  then have r: "r = Some p" using assms by simp
  from scanBest_shape [OF run] r show ?thesis by auto
qed

lemmas demo_defs = demoState_def demoPeer_def demoInfo_def demoEnv_def demoConfig_def
  newPeer_def peerOptions_def map_values_def map_has_def map_get_def map_set_def

lemma demoSatisfies_accepts: "demoSatisfies ''1.0.0'' ''1.0.0'' = Inr True"
  by (simp add: demoSatisfies_def plainVersion_def numericIdentifier_def)



lemma update_fresh: "k \<notin> fst ` set al \<Longrightarrow> AList.update k v al = al @ [(k, v)]"
  by (induction al) auto


lemma entriesOf_empty_iff: "entriesOf n st = [] \<longleftrightarrow> \<not> map_has (peersMap st) n"
  by (auto simp: entriesOf_def map_has_iff filter_empty_conv)



lemma addPeer_fresh_entries:
  assumes "\<not> map_has (peersMap st) (nonce c)"
  shows "entriesOf (nonce c) (stateOf (addPeer env c st)) =
     (if nonce c \<noteq> ownNode_nonce env \<and> \<not> sublist ''monitoring'' (nonce c)
          \<and> satisfies env (version c) (minVersion (config env)) = Inr True
      then [(nonce c, newPeer (peerOptions env c))] else [])"
proof -
  have k: "nonce c \<notin> fst ` set (peersMap st)" using assms by (simp add: map_has_iff)
  then have e: "filter (\<lambda>e. fst e = nonce c) (peersMap st) = []"
    by (auto simp: filter_empty_conv image_iff)
  show ?thesis using assms e
    by (auto simp: entriesOf_def stateOf_addPeer map_set_def update_fresh [OF k])
qed

lemma addPeer_present_noop:
  "map_has (peersMap st) (nonce c) \<Longrightarrow> addPeer env c st = Returned st"
  by (simp add: addPeer_def)

lemma addPeer_absent_noop:
  "\<not> map_has (peersMap (stateOf (addPeer env c st))) (nonce c) \<Longrightarrow> stateOf (addPeer env c st) = st"
  by (auto simp: stateOf_addPeer map_has_iff keys_map_set split: if_splits)

















lemma entriesOf_cong: "peersMap s = peersMap t \<Longrightarrow> entriesOf n s = entriesOf n t"
  by (simp add: entriesOf_def)





















section \<open>The claims\<close>

text \<open>
  Claim C1, as the code has it. The scan of \<open>getBestHTTPPeer\<close> replaces the record it
  holds whenever an HTTP-active record has a height greater than or equal to the running
  maximum, so the record returned is the last one, in shuffle order, of maximal height
  among the HTTP-active records: every HTTP-active record before it is at most as high,
  every one after it is strictly lower. On a tie the later record wins, not the earlier.
\<close>

theorem getBestHTTPPeer_returns_last_of_maximal_height:
  assumes "getBestHTTPPeer shuffle st = Inr p"
  shows "\<exists>pre post. shuffle (map_values (peersMap st)) = pre @ p # post \<and> httpActive p \<and>
        (\<forall>q \<in> set pre. httpActive q \<longrightarrow> statusHeight q \<le> statusHeight p) \<and>
        (\<forall>q \<in> set post. httpActive q \<longrightarrow> statusHeight q < statusHeight p)"
proof -
  have "fst (scanBest (shuffle (map_values (peersMap st))) (None, 0)) = Some p"
    using assms by (simp add: getBestHTTPPeer_def split: option.splits)
  then show ?thesis by (rule scanBest_last_max)
qed

theorem getBestHTTPPeer_returns_last_of_maximal_height_witness:
  "getBestHTTPPeer rev tieState = Inr (demoPeer ''p1'' (Some 5) True)
   \<and> (\<exists>pre post. rev (map_values (peersMap tieState)) = pre @ demoPeer ''p1'' (Some 5) True # post
        \<and> httpActive (demoPeer ''p1'' (Some 5) True)
        \<and> (\<forall>q \<in> set pre. httpActive q \<longrightarrow> statusHeight q \<le> statusHeight (demoPeer ''p1'' (Some 5) True))
        \<and> (\<forall>q \<in> set post. httpActive q \<longrightarrow> statusHeight q < statusHeight (demoPeer ''p1'' (Some 5) True)))"
proof -
  have h: "getBestHTTPPeer rev tieState = Inr (demoPeer ''p1'' (Some 5) True)"
    by (simp add: getBestHTTPPeer_def tieState_def demoState_def demoPeer_def map_values_def
        statusHeight_def newPeer_def peerOptions_def demoInfo_def)
  from getBestHTTPPeer_returns_last_of_maximal_height [OF h] h show ?thesis by (rule conjI [rotated])
qed

text \<open>
  The claim C1 as stated fails: with two HTTP-active peers of equal height 5, in the
  shuffle order \<open>p1, p2\<close>, the record returned is \<open>p2\<close>, the later one.
\<close>

theorem getBestHTTPPeer_tie_keeps_later_record:
  "getBestHTTPPeer (\<lambda>xs. xs) tieState = Inr (demoPeer ''p2'' (Some 5) True)
   \<and> map_values (peersMap tieState) = [demoPeer ''p1'' (Some 5) True, demoPeer ''p2'' (Some 5) True]
   \<and> statusHeight (demoPeer ''p1'' (Some 5) True) = statusHeight (demoPeer ''p2'' (Some 5) True)
   \<and> httpActive (demoPeer ''p1'' (Some 5) True)
   \<and> demoPeer ''p1'' (Some 5) True \<noteq> demoPeer ''p2'' (Some 5) True"
  by (simp add: getBestHTTPPeer_def tieState_def demoState_def demoPeer_def map_values_def
        statusHeight_def newPeer_def peerOptions_def demoInfo_def)

text \<open>
  Claim C2, as the code has it. \<open>handleStatusUpdate\<close> forwards the update to the peer and
  leaves \<open>bestHeight\<close> as it is: after a status update of a registered peer whose new
  height exceeds the best height, \<open>getBestHeight\<close> still returns the old value, which is
  below the new height; the next \<open>updatePeers\<close> raises it to at least the new height
  (the best height is written before the loop that may throw).
\<close>

theorem status_update_alone_does_not_raise_best_height:
  assumes "upd_nonce u = Some n" and "n \<noteq> []"
    and "map_get (peersMap st) n = Some p"
    and "status (peer_handleStatusUpdate env u p) = Some s"
    and "bestHeight st < height s"
  shows "getBestHeight (handleStatusUpdate env u st) = getBestHeight st
       \<and> getBestHeight (handleStatusUpdate env u st) < height s
       \<and> height s \<le> getBestHeight (stateOf (updatePeers env (handleStatusUpdate env u st)))"
proof -
  let ?st' = "handleStatusUpdate env u st"
  have same: "bestHeight ?st' = bestHeight st" by (rule handleStatusUpdate_bestHeight)
  have reg: "peersMap ?st' = map_set n (peer_handleStatusUpdate env u p) (peersMap st)"
    using assms(1,2,3) by (simp add: handleStatusUpdate_def)
  have "n \<in> fst ` set (peersMap st)" using assms(3) by (rule map_get_Some_key)
  then have "map_of (peersMap ?st') n = Some (peer_handleStatusUpdate env u p)"
    by (simp add: reg map_set_def update_conv')
  then have "(n, peer_handleStatusUpdate env u p) \<in> set (peersMap ?st')" by (rule map_of_SomeD)
  then have mem: "peer_handleStatusUpdate env u p \<in> set (map_values (peersMap ?st'))"
    by (force simp: map_values_def)
  have "height s \<le> fst (updateBest (map_values (peersMap ?st')) (bestHeight ?st', bestBroadhash ?st'))"
    using mem assms(4) by (rule updateBest_covers)
  then have "height s \<le> bestHeight (stateOf (updatePeers env ?st'))" by (simp add: updatePeers_bestHeight)
  then show ?thesis using same assms(5) by (simp add: getBestHeight_def)
qed

theorem status_update_alone_does_not_raise_best_height_witness:
  "getBestHeight (handleStatusUpdate demoEnv seedUpdate seedState) = getBestHeight seedState
   \<and> getBestHeight (handleStatusUpdate demoEnv seedUpdate seedState) < 100
   \<and> 100 \<le> getBestHeight (stateOf (updatePeers demoEnv (handleStatusUpdate demoEnv seedUpdate seedState)))"
proof -
  have a: "upd_nonce seedUpdate = Some ''seed''" "''seed'' \<noteq> []" by (simp_all add: seedUpdate_def)
  have b: "map_get (peersMap seedState) ''seed'' = Some (demoPeer ''seed'' None False)"
    by (simp add: seedState_def demoState_def map_get_def)
  have c: "status (peer_handleStatusUpdate demoEnv seedUpdate (demoPeer ''seed'' None False))
            = Some \<lparr>height = 100, broadhash = ''h1''\<rparr>"
    by (simp add: demoEnv_def seedUpdate_def)
  have d: "bestHeight seedState < height \<lparr>height = 100, broadhash = ''h1''\<rparr>"
    by (simp add: seedState_def demoState_def)
  from status_update_alone_does_not_raise_best_height [OF a b c d] show ?thesis by simp
qed

text \<open>
  The claim C2 as stated fails: the peer \<open>seed\<close> is registered, the update
  \<open>{nonce: "seed", height: 100, broadhash: "h1"}\<close> is ingested and recorded in the peer's
  status, and \<open>getBestHeight\<close> returns 0, not 100.
\<close>

theorem status_update_leaves_best_height_unchanged:
  "getBestHeight (handleStatusUpdate demoEnv seedUpdate seedState) = 0
   \<and> upd_height seedUpdate = 100
   \<and> map_get (peersMap (handleStatusUpdate demoEnv seedUpdate seedState)) ''seed''
       = Some ((demoPeer ''seed'' None False)\<lparr>status := Some \<lparr>height = 100, broadhash = ''h1''\<rparr>\<rparr>)"
  by (simp add: getBestHeight_def handleStatusUpdate_def seedUpdate_def seedState_def demo_defs)

text \<open>
  Claim C3. Along every sequence of operations (\<open>addPeer\<close>, \<open>updatePeers\<close>,
  \<open>handleStatusUpdate\<close>, \<open>wsServerConnectionChanged\<close>, and changes the transport makes to
  the peers in between), whether the calls return or throw, the value of
  \<open>getBestHeight\<close> never decreases: what it returns after a prefix of the sequence is at
  most what it returns after the whole sequence.
\<close>

theorem getBestHeight_never_decreases:
  "getBestHeight (run env ops1 st) \<le> getBestHeight (run env (ops1 @ ops2) st)"
  by (simp add: getBestHeight_def run_append run_bestHeight_mono)

theorem getBestHeight_never_decreases_witness:
  "getBestHeight (run demoEnv [HandleStatusUpdate seedUpdate, UpdatePeers] seedState) = 100
   \<and> getBestHeight (run demoEnv [HandleStatusUpdate seedUpdate, UpdatePeers] seedState)
       \<le> getBestHeight (run demoEnv ([HandleStatusUpdate seedUpdate, UpdatePeers]
            @ [AddPeer (demoInfo ''p2'' ''1.0.0''), UpdatePeers]) seedState)"
proof -
  have "getBestHeight (run demoEnv [HandleStatusUpdate seedUpdate, UpdatePeers] seedState) = 100"
    by (simp add: getBestHeight_def run_def updatePeers_bestHeight handleStatusUpdate_def
          seedUpdate_def seedState_def demo_defs)
  then show ?thesis
    using getBestHeight_never_decreases [of demoEnv "[HandleStatusUpdate seedUpdate, UpdatePeers]"
        seedState "[AddPeer (demoInfo ''p2'' ''1.0.0''), UpdatePeers]"]
    by simp
qed

text \<open>
  Claim C4. A key that \<open>addPeer\<close> adds to the registry is never the own node's nonce and
  never contains the substring \<open>monitoring\<close>, whatever the other fields of the candidate;
  and in every state reached from the state the constructor leaves by any sequence of
  operations, no key of the registry is the own nonce or contains the marker.
\<close>

theorem registry_never_holds_own_or_monitoring_nonce:
  "(\<forall>k. map_has (peersMap (stateOf (addPeer env c st))) k \<and> \<not> map_has (peersMap st) k
        \<longrightarrow> k \<noteq> ownNode_nonce env \<and> \<not> sublist ''monitoring'' k)
   \<and> (\<forall>k. map_has (peersMap (run env ops (stateOf (newPeerManager env)))) k
        \<longrightarrow> k \<noteq> ownNode_nonce env \<and> \<not> sublist ''monitoring'' k)"
proof (intro conjI allI impI)
  fix k assume "map_has (peersMap (stateOf (addPeer env c st))) k \<and> \<not> map_has (peersMap st) k"
  then have "k \<in> fst ` set (peersMap (stateOf (addPeer env c st)))" "k \<notin> fst ` set (peersMap st)"
    by (simp_all add: map_has_iff)
  from addPeer_new_key [OF this]
  show "k \<noteq> ownNode_nonce env" "\<not> sublist ''monitoring'' k" by blast+
next
  fix k assume "map_has (peersMap (run env ops (stateOf (newPeerManager env)))) k"
  then have "k \<in> fst ` set (peersMap (run env ops (stateOf (newPeerManager env))))"
    by (simp add: map_has_iff)
  with run_allowed [OF newPeerManager_allowed, of env ops] have "nonceAllowed env k" by blast
  then show "k \<noteq> ownNode_nonce env" "\<not> sublist ''monitoring'' k"
    by (simp_all add: nonceAllowed_def)
qed

theorem registry_never_holds_own_or_monitoring_nonce_witness:
  "map_has (peersMap (run demoEnv [UpdatePeers, AddPeer (demoInfo ''p2'' ''1.0.0'')]
      (stateOf (newPeerManager demoEnv)))) ''p2''
   \<and> ''p2'' \<noteq> ownNode_nonce demoEnv \<and> \<not> sublist ''monitoring'' ''p2''
   \<and> \<not> map_has (peersMap (stateOf (addPeer demoEnv (demoInfo ''monitoring-1'' ''1.0.0'') seedState)))
        ''monitoring-1''"
proof -
  have a: "map_has (peersMap (run demoEnv [UpdatePeers, AddPeer (demoInfo ''p2'' ''1.0.0'')]
      (stateOf (newPeerManager demoEnv)))) ''p2''"
    by (simp add: run_def updatePeers_def stagedPeers_def peerList_def flatten_def without_undefined_def
          List.map_filter_simps newPeerManager_def addPeer_def seedInfo_def initialState_def indexOf_def
          demo_defs demoSatisfies_accepts)
  have s: "sublist ''monitoring'' ''monitoring-1''"
    by (rule prefix_imp_sublist) simp
  have n: "\<not> map_has (peersMap seedState) ''monitoring-1''"
    by (simp add: seedState_def demoState_def map_has_def)
  from registry_never_holds_own_or_monitoring_nonce
    [of demoEnv "demoInfo ''monitoring-1'' ''1.0.0''" seedState "[UpdatePeers, AddPeer (demoInfo ''p2'' ''1.0.0'')]"]
  show ?thesis using a s n by blast
qed

text \<open>
  Claim C5. Calling \<open>addPeer\<close> a second time with the same candidate leaves the state
  the first call left. Once the first call has left the nonce in the registry, a second
  call with any candidate of that nonce returns and changes nothing; and when the first
  call admitted a nonce that was new, the registry then holds exactly one entry under
  it, the peer built from the first candidate (its address, its ports, the network hash).
\<close>

theorem addPeer_idempotent_in_nonce:
  "stateOf (addPeer env c (stateOf (addPeer env c st))) = stateOf (addPeer env c st)
   \<and> (nonce c2 = nonce c \<and> map_has (peersMap (stateOf (addPeer env c st))) (nonce c)
        \<longrightarrow> addPeer env c2 (stateOf (addPeer env c st)) = Returned (stateOf (addPeer env c st)))
   \<and> (nonce c2 = nonce c \<and> \<not> map_has (peersMap st) (nonce c)
          \<and> map_has (peersMap (stateOf (addPeer env c st))) (nonce c)
        \<longrightarrow> entriesOf (nonce c) (stateOf (addPeer env c2 (stateOf (addPeer env c st))))
              = [(nonce c, newPeer (peerOptions env c))])"
proof (intro conjI impI)
  show "stateOf (addPeer env c (stateOf (addPeer env c st))) = stateOf (addPeer env c st)"
  proof (cases "map_has (peersMap (stateOf (addPeer env c st))) (nonce c)")
    case True
    then have "addPeer env c (stateOf (addPeer env c st)) = Returned (stateOf (addPeer env c st))"
      by (rule addPeer_present_noop)
    then show ?thesis by simp
  next
    case False
    then have e: "stateOf (addPeer env c st) = st" by (rule addPeer_absent_noop)
    show ?thesis by (simp add: e)
  qed
next
  assume "nonce c2 = nonce c \<and> map_has (peersMap (stateOf (addPeer env c st))) (nonce c)"
  then have "map_has (peersMap (stateOf (addPeer env c st))) (nonce c2)" by simp
  then show "addPeer env c2 (stateOf (addPeer env c st)) = Returned (stateOf (addPeer env c st))"
    by (rule addPeer_present_noop)
next
  assume a: "nonce c2 = nonce c \<and> \<not> map_has (peersMap st) (nonce c)
          \<and> map_has (peersMap (stateOf (addPeer env c st))) (nonce c)"
  then have "map_has (peersMap (stateOf (addPeer env c st))) (nonce c2)" by simp
  then have same: "addPeer env c2 (stateOf (addPeer env c st)) = Returned (stateOf (addPeer env c st))"
    by (rule addPeer_present_noop)
  from a have fresh: "\<not> map_has (peersMap st) (nonce c)" by simp
  have "entriesOf (nonce c) (stateOf (addPeer env c st)) \<noteq> []"
    using a by (simp add: entriesOf_empty_iff)
  then have "entriesOf (nonce c) (stateOf (addPeer env c st)) = [(nonce c, newPeer (peerOptions env c))]"
    using addPeer_fresh_entries [OF fresh, of env] by (simp split: if_splits)
  then show "entriesOf (nonce c) (stateOf (addPeer env c2 (stateOf (addPeer env c st))))
              = [(nonce c, newPeer (peerOptions env c))]"
    by (simp add: same)
qed

theorem addPeer_idempotent_in_nonce_witness:
  "stateOf (addPeer demoEnv (demoInfo ''p2'' ''1.0.0'')
        (stateOf (addPeer demoEnv (demoInfo ''p2'' ''1.0.0'') seedState)))
      = stateOf (addPeer demoEnv (demoInfo ''p2'' ''1.0.0'') seedState)
   \<and> addPeer demoEnv ((demoInfo ''p2'' ''1.0.0'')\<lparr>ip := ''10.9.9.9''\<rparr>)
        (stateOf (addPeer demoEnv (demoInfo ''p2'' ''1.0.0'') seedState))
      = Returned (stateOf (addPeer demoEnv (demoInfo ''p2'' ''1.0.0'') seedState))
   \<and> entriesOf ''p2'' (stateOf (addPeer demoEnv ((demoInfo ''p2'' ''1.0.0'')\<lparr>ip := ''10.9.9.9''\<rparr>)
        (stateOf (addPeer demoEnv (demoInfo ''p2'' ''1.0.0'') seedState))))
      = [(''p2'', newPeer (peerOptions demoEnv (demoInfo ''p2'' ''1.0.0'')))]"
proof -
  have n: "nonce ((demoInfo ''p2'' ''1.0.0'')\<lparr>ip := ''10.9.9.9''\<rparr>) = nonce (demoInfo ''p2'' ''1.0.0'')"
    "nonce (demoInfo ''p2'' ''1.0.0'') = ''p2''"
    by (simp_all add: demoInfo_def)
  have f: "\<not> map_has (peersMap seedState) (nonce (demoInfo ''p2'' ''1.0.0''))"
    by (simp add: seedState_def demoState_def map_has_def demoInfo_def)
  have h: "map_has (peersMap (stateOf (addPeer demoEnv (demoInfo ''p2'' ''1.0.0'') seedState)))
             (nonce (demoInfo ''p2'' ''1.0.0''))"
    by (simp add: addPeer_def indexOf_def seedState_def demo_defs demoSatisfies_accepts)
  note T = addPeer_idempotent_in_nonce [of demoEnv "demoInfo ''p2'' ''1.0.0''" seedState
      "(demoInfo ''p2'' ''1.0.0'')\<lparr>ip := ''10.9.9.9''\<rparr>"]
  have a: "stateOf (addPeer demoEnv (demoInfo ''p2'' ''1.0.0'')
        (stateOf (addPeer demoEnv (demoInfo ''p2'' ''1.0.0'') seedState)))
      = stateOf (addPeer demoEnv (demoInfo ''p2'' ''1.0.0'') seedState)"
    using T by (rule conjunct1)
  have b: "addPeer demoEnv ((demoInfo ''p2'' ''1.0.0'')\<lparr>ip := ''10.9.9.9''\<rparr>)
        (stateOf (addPeer demoEnv (demoInfo ''p2'' ''1.0.0'') seedState))
      = Returned (stateOf (addPeer demoEnv (demoInfo ''p2'' ''1.0.0'') seedState))"
    using T n(1) h by blast
  have "entriesOf (nonce (demoInfo ''p2'' ''1.0.0''))
        (stateOf (addPeer demoEnv ((demoInfo ''p2'' ''1.0.0'')\<lparr>ip := ''10.9.9.9''\<rparr>)
          (stateOf (addPeer demoEnv (demoInfo ''p2'' ''1.0.0'') seedState))))
      = [(nonce (demoInfo ''p2'' ''1.0.0''), newPeer (peerOptions demoEnv (demoInfo ''p2'' ''1.0.0'')))]"
    using T n(1) f h by blast
  then have c: "entriesOf ''p2'' (stateOf (addPeer demoEnv ((demoInfo ''p2'' ''1.0.0'')\<lparr>ip := ''10.9.9.9''\<rparr>)
        (stateOf (addPeer demoEnv (demoInfo ''p2'' ''1.0.0'') seedState))))
      = [(''p2'', newPeer (peerOptions demoEnv (demoInfo ''p2'' ''1.0.0'')))]"
    by (simp only: n(2))
  from a b c show ?thesis by (intro conjI)
qed

text \<open>
  Claim C6. Whatever permutation the shuffle produces, \<open>getBestHTTPPeer\<close> throws
  \<open>No best peer found\<close> exactly when no peer of the registry is HTTP-active, and a record
  it returns is a peer of the registry whose HTTP-active flag is set.
\<close>

theorem getBestHTTPPeer_NotFound_iff:
  assumes "mset (shuffle (map_values (peersMap st))) = mset (map_values (peersMap st))"
  shows "(getBestHTTPPeer shuffle st = Inl NoBestPeerFound
            \<longleftrightarrow> (\<forall>p \<in> set (map_values (peersMap st)). \<not> httpActive p))
       \<and> (\<forall>p. getBestHTTPPeer shuffle st = Inr p
            \<longrightarrow> httpActive p \<and> p \<in> set (map_values (peersMap st)))"
proof -
  have s: "set (shuffle (map_values (peersMap st))) = set (map_values (peersMap st))"
    using assms by (rule mset_eq_setD)
  have a: "getBestHTTPPeer shuffle st = Inl NoBestPeerFound
            \<longleftrightarrow> (\<forall>p \<in> set (map_values (peersMap st)). \<not> httpActive p)"
  proof -
    have "getBestHTTPPeer shuffle st = Inl NoBestPeerFound
            \<longleftrightarrow> fst (scanBest (shuffle (map_values (peersMap st))) (None, 0)) = None"
      by (simp add: getBestHTTPPeer_def split: option.splits)
    also have "\<dots> \<longleftrightarrow> (\<forall>p \<in> set (shuffle (map_values (peersMap st))). \<not> httpActive p)"
      by (rule scanBest_None_iff)
    finally show ?thesis by (simp only: s)
  qed
  have b: "httpActive p \<and> p \<in> set (map_values (peersMap st))"
    if "getBestHTTPPeer shuffle st = Inr p" for p
  proof -
    have "fst (scanBest (shuffle (map_values (peersMap st))) (None, 0)) = Some p"
      using that by (simp add: getBestHTTPPeer_def split: option.splits)
    from scanBest_last_max [OF this] s show ?thesis by auto
  qed
  show ?thesis using a b by blast
qed

theorem getBestHTTPPeer_NotFound_iff_witness:
  "mset (rev (map_values (peersMap tieState))) = mset (map_values (peersMap tieState))
   \<and> getBestHTTPPeer rev tieState = Inr (demoPeer ''p1'' (Some 5) True)
   \<and> httpActive (demoPeer ''p1'' (Some 5) True)
   \<and> demoPeer ''p1'' (Some 5) True \<in> set (map_values (peersMap tieState))
   \<and> getBestHTTPPeer rev (demoState []) = Inl NoBestPeerFound"
proof -
  have m: "mset (rev (map_values (peersMap st))) = mset (map_values (peersMap st))" for st
    by simp
  have h: "getBestHTTPPeer rev tieState = Inr (demoPeer ''p1'' (Some 5) True)"
    by (simp add: getBestHTTPPeer_def tieState_def demoState_def demoPeer_def map_values_def
        statusHeight_def newPeer_def peerOptions_def demoInfo_def)
  have e: "\<forall>p \<in> set (map_values (peersMap (demoState []))). \<not> httpActive p"
    by (simp add: demoState_def map_values_def)
  from getBestHTTPPeer_NotFound_iff [of rev tieState, OF m] h
  have a: "httpActive (demoPeer ''p1'' (Some 5) True)
         \<and> demoPeer ''p1'' (Some 5) True \<in> set (map_values (peersMap tieState))" by blast
  from getBestHTTPPeer_NotFound_iff [of rev "demoState []", OF m] e
  have b: "getBestHTTPPeer rev (demoState []) = Inl NoBestPeerFound" by blast
  show ?thesis using m [of tieState] h a b by blast
qed










text \<open>
  Claim C10. A status update whose nonce is the empty string is dropped by the test
  \<open>!update.nonce\<close>: \<open>handleStatusUpdate\<close> returns the state unchanged, so no record is
  handed the update. The seed peer is stored under the empty nonce by the constructor
  (when the own nonce is not empty and the seed's version is accepted), so it is never
  updated this way.
\<close>

theorem handleStatusUpdate_empty_nonce_is_ignored:
  assumes "upd_nonce u = Some []"
  shows "handleStatusUpdate env u st = st
       \<and> (ownNode_nonce env \<noteq> []
            \<and> satisfies env (seedNode_version (config env)) (minVersion (config env)) = Inr True
            \<longrightarrow> map_get (peersMap (stateOf (newPeerManager env))) []
                  = Some (newPeer (peerOptions env (seedInfo env))))"
  using assms
  by (simp add: handleStatusUpdate_def newPeerManager_def addPeer_def seedInfo_def initialState_def
        map_has_def map_get_def map_set_def indexOf_def)

theorem handleStatusUpdate_empty_nonce_is_ignored_witness:
  "handleStatusUpdate demoEnv emptyNonceUpdate (stateOf (newPeerManager demoEnv))
      = stateOf (newPeerManager demoEnv)
   \<and> map_get (peersMap (stateOf (newPeerManager demoEnv))) []
       = Some (newPeer (peerOptions demoEnv (seedInfo demoEnv)))"
proof -
  have h: "upd_nonce emptyNonceUpdate = Some []" by (simp add: emptyNonceUpdate_def)
  have g: "ownNode_nonce demoEnv \<noteq> []
        \<and> satisfies demoEnv (seedNode_version (config demoEnv)) (minVersion (config demoEnv)) = Inr True"
    by (simp add: demoEnv_def demoConfig_def demoSatisfies_accepts)
  from handleStatusUpdate_empty_nonce_is_ignored
         [OF h, of demoEnv "stateOf (newPeerManager demoEnv)"] g
  show ?thesis by blast
qed

end
